theory Spec2Isabelle
  imports Complex_Main
begin

section \<open>Data model of \<open>iss_next_pass.py\<close>\<close>

text \<open>
  The script computes the next visible pass of the ISS with the Skyfield library. The
  library, the clock, the ephemeris file and the two web services are not part of the
  script; their behaviour is a parameter of the model (the record \<open>world\<close> below), and
  every call into them may raise a Python exception, which is a value of type \<open>exn\<close>.

  Instants: a Skyfield \<open>Time\<close> is a point of the UTC timeline, a real number of seconds;
  \<open>tj > ti\<close> is the order of that line. A Python \<open>datetime\<close> is a whole number of
  microseconds on the same line, and \<open>utc_datetime\<close> rounds a \<open>Time\<close> to the nearest one.
  So two instants that differ can have the same \<open>datetime\<close>. Python floats (latitude,
  longitude, the twilight threshold, the sun's altitude, the duration) are real
  numbers; NaN and the infinities are not modelled.

  Two library calls are taken to return always: \<open>load.timescale()\<close>, which reads data
  shipped with the library, and \<open>wgs84.latlon\<close>, which stores the two angles it is given.
\<close>

type_synonym time = real
type_synonym datetime = int
type_synonym timedelta = int

text \<open>\<open>wgs84.latlon(lat, lon)\<close>: the observer is the pair it was built from.\<close>

type_synonym observer = "real \<times> real"

text \<open>The event codes of \<open>find_events\<close>: 0 rise, 1 culminate, 2 set.\<close>

datatype event = Rise | Culminate | SetEv

text \<open>
  A Python exception: the \<open>IndexError\<close> of \<open>tle[0]\<close> and \<open>tle[1]\<close>, or an exception
  raised inside a library call, carried with its text.
\<close>

datatype exn = IndexError | Raised string

text \<open>What the script prints, one constructor per \<open>print\<close> (or group of prints).\<close>

datatype message =
    ErrorRetrievingLocation exn
  | ErrorTleIncomplete
  | ErrorRetrievingTle exn
  | ErrorCalculating exn
  | YourLocation real real real
  | NextPassAt datetime
  | PassDuration int
  | NoVisiblePass

text \<open>
  A function of the script either returns a value or leaves the process through
  \<open>sys.exit(status)\<close> after printing.
\<close>

datatype 'a outcome = Value 'a | SystemExit "message list" nat

text \<open>
  The surroundings of one run. \<open>'sat\<close> is the \<open>EarthSatellite\<close> object and \<open>'eph\<close> the
  loaded ephemeris; the script only hands them back to the library.
  \<^item> \<open>now\<close>: the clock read by \<open>ts.now()\<close>;
  \<^item> \<open>EarthSatellite\<close>: the constructor, parsing the two element lines;
  \<^item> \<open>load_de421\<close>: \<open>load('de421.bsp')\<close> with the lookups of \<open>'sun'\<close> and \<open>'earth'\<close>;
  \<^item> \<open>is_sunlit\<close>: \<open>satellite.at(t).is_sunlit(eph)\<close>;
  \<^item> \<open>sun_altitude\<close>: the degrees of
    \<open>(earth + observer).at(t).observe(sun).apparent().altaz()[0]\<close>;
  \<^item> \<open>find_events\<close>: \<open>satellite.find_events(observer, t0, t1, altitude_degrees)\<close>, the two
    arrays zipped into one list of pairs;
  \<^item> \<open>ipinfo\<close>: the request to ipinfo.io with the parsing of its \<open>loc\<close> field;
  \<^item> \<open>wheretheiss\<close>: the request to wheretheiss.at and the fields \<open>line1\<close>, \<open>line2\<close>
    of its answer (\<open>None\<close> for a missing field).
\<close>

record ('sat, 'eph) world =
  now :: time
  EarthSatellite :: "string \<Rightarrow> string \<Rightarrow> exn + 'sat"
  load_de421 :: "exn + 'eph"
  is_sunlit :: "'sat \<Rightarrow> 'eph \<Rightarrow> time \<Rightarrow> exn + bool"
  sun_altitude :: "'eph \<Rightarrow> observer \<Rightarrow> time \<Rightarrow> exn + real"
  find_events :: "'sat \<Rightarrow> observer \<Rightarrow> time \<Rightarrow> time \<Rightarrow> real \<Rightarrow> exn + (time \<times> event) list"
  ipinfo :: "exn + real \<times> real"
  wheretheiss :: "exn + string option \<times> string option"

text \<open>The parsed command line: \<open>--lat\<close>, \<open>--lon\<close> (both optional) and \<open>--twilight\<close>.\<close>

record args =
  arg_lat :: "real option"
  arg_lon :: "real option"
  arg_twilight :: real

section \<open>Time arithmetic\<close>

text \<open>
  \<open>t.utc_datetime()\<close> rounds to the nearest microsecond; \<open>ts.utc(d)\<close> is the instant of
  the \<open>datetime\<close> \<open>d\<close>.
\<close>

definition utc_datetime :: "time \<Rightarrow> datetime" where
  "utc_datetime t = \<lfloor>t * 1000000 + 1 / 2\<rfloor>"

definition ts_utc :: "datetime \<Rightarrow> time" where
  "ts_utc d = real_of_int d / 1000000"

definition timedelta_days :: "int \<Rightarrow> timedelta" where
  "timedelta_days n = n * 86400000000"

definition total_seconds :: "timedelta \<Rightarrow> real" where
  "total_seconds d = real_of_int d / 1000000"

definition latlon :: "real \<Rightarrow> real \<Rightarrow> observer" where
  "latlon lat lon = (lat, lon)"

section \<open>The script\<close>

subsection \<open>\<open>get_location\<close> and \<open>get_iss_tle\<close>\<close>

definition get_location :: "('sat, 'eph) world \<Rightarrow> (real \<times> real) outcome" where
  "get_location w =
     (case ipinfo w of
        Inl e \<Rightarrow> SystemExit [ErrorRetrievingLocation e] 1
      | Inr (lat, lon) \<Rightarrow> Value (lat, lon))"

text \<open>\<open>not line\<close> holds of \<open>None\<close> and of the empty string.\<close>

fun falsy_line :: "string option \<Rightarrow> bool" where
  "falsy_line None = True"
| "falsy_line (Some s) = (s = [])"

definition get_iss_tle :: "('sat, 'eph) world \<Rightarrow> string list outcome" where
  "get_iss_tle w =
     (case wheretheiss w of
        Inl e \<Rightarrow> SystemExit [ErrorRetrievingTle e] 1
      | Inr (line1, line2) \<Rightarrow>
          (if falsy_line line1 \<or> falsy_line line2 then SystemExit [ErrorTleIncomplete] 1
           else (case (line1, line2) of
                   (Some l1, Some l2) \<Rightarrow> Value [l1, l2]
                 | _ \<Rightarrow> SystemExit [ErrorTleIncomplete] 1)))"

subsection \<open>\<open>is_visible\<close>\<close>

text \<open>
  The closure \<open>is_visible(t)\<close> of \<open>next_visible_pass\<close>, with the variables it captures as
  arguments. The sun's altitude is computed only when the satellite is sunlit.
\<close>

definition is_visible ::
  "('sat, 'eph) world \<Rightarrow> 'sat \<Rightarrow> 'eph \<Rightarrow> observer \<Rightarrow> real \<Rightarrow> time \<Rightarrow> exn + bool" where
  "is_visible w satellite eph observer twilight_threshold t =
     (case is_sunlit w satellite eph t of
        Inl e \<Rightarrow> Inl e
      | Inr illuminated \<Rightarrow>
          (if \<not> illuminated then Inr False
           else (case sun_altitude w eph observer t of
                   Inl e \<Rightarrow> Inl e
                 | Inr sun_alt \<Rightarrow> Inr (sun_alt < twilight_threshold))))"

subsection \<open>The two loops of \<open>next_visible_pass\<close>\<close>

text \<open>
  The inner loop runs over all events from the start and stops at the first one, in list
  order, that is a set with \<open>tj > ti\<close>.
\<close>

fun find_set :: "time \<Rightarrow> (time \<times> event) list \<Rightarrow> time option" where
  "find_set ti [] = None"
| "find_set ti ((tj, eventj) # rest) =
     (if tj > ti \<and> eventj = SetEv then Some tj else find_set ti rest)"

text \<open>
  The outer loop: \<open>vis\<close> is \<open>is_visible\<close>, \<open>evs\<close> all events, the third argument the
  events still to visit, \<open>risetime\<close> the variable of that name. \<open>duration\<close> is assigned
  only just before the \<open>return\<close> inside the inner loop, so it is \<open>None\<close> whenever the
  outer loop runs to its end.
\<close>

fun pass_loop ::
  "(time \<Rightarrow> exn + bool) \<Rightarrow> (time \<times> event) list \<Rightarrow> (time \<times> event) list \<Rightarrow>
   datetime option \<Rightarrow> exn + (datetime option \<times> real option)" where
  "pass_loop vis evs [] risetime = Inr (risetime, None)"
| "pass_loop vis evs ((ti, ev) # rest) risetime =
     (if ev = Rise then
        (case vis ti of
           Inl e \<Rightarrow> Inl e
         | Inr visible \<Rightarrow>
             (if visible then
                (case find_set ti evs of
                   Some tj \<Rightarrow>
                     Inr (Some (utc_datetime ti),
                          Some (total_seconds (utc_datetime tj - utc_datetime ti)))
                 | None \<Rightarrow> pass_loop vis evs rest (Some (utc_datetime ti)))
              else pass_loop vis evs rest risetime))
      else pass_loop vis evs rest risetime)"

subsection \<open>\<open>next_visible_pass\<close>\<close>

text \<open>The body of the \<open>try\<close> block; \<open>Inl\<close> is an exception on its way to the handler.\<close>

definition pass_body ::
  "('sat, 'eph) world \<Rightarrow> real \<Rightarrow> real \<Rightarrow> string list \<Rightarrow> real \<Rightarrow>
   exn + (datetime option \<times> real option)" where
  "pass_body w lat lon tle twilight_threshold =
     (if length tle < 2 then Inl IndexError
      else
        (case EarthSatellite w (tle ! 0) (tle ! 1) of
           Inl e \<Rightarrow> Inl e
         | Inr satellite \<Rightarrow>
             (let observer = latlon lat lon;
                  t0 = now w;
                  t1 = ts_utc (utc_datetime t0 + timedelta_days 2)
              in (case load_de421 w of
                    Inl e \<Rightarrow> Inl e
                  | Inr eph \<Rightarrow>
                      (case find_events w satellite observer t0 t1 10 of
                         Inl e \<Rightarrow> Inl e
                       | Inr evs \<Rightarrow>
                           pass_loop (is_visible w satellite eph observer twilight_threshold)
                             evs evs None)))))"

text \<open>The handler prints the exception and exits with status 1.\<close>

definition next_visible_pass ::
  "('sat, 'eph) world \<Rightarrow> real \<Rightarrow> real \<Rightarrow> string list \<Rightarrow> real \<Rightarrow>
   (datetime option \<times> real option) outcome" where
  "next_visible_pass w lat lon tle twilight_threshold =
     (case pass_body w lat lon tle twilight_threshold of
        Inl e \<Rightarrow> SystemExit [ErrorCalculating e] 1
      | Inr r \<Rightarrow> Value r)"

subsection \<open>\<open>main\<close>\<close>

text \<open>\<open>int(duration)\<close> truncates towards zero.\<close>

definition py_int :: "real \<Rightarrow> int" where
  "py_int x = (if 0 \<le> x then \<lfloor>x\<rfloor> else \<lceil>x\<rceil>)"

text \<open>
  \<open>if risetime and duration\<close>: a \<open>datetime\<close> is always true, a float is true unless it
  is zero, \<open>None\<close> is false.
\<close>

fun report :: "datetime option \<times> real option \<Rightarrow> message list" where
  "report (Some risetime, Some duration) =
     (if duration \<noteq> 0 then [NextPassAt risetime, PassDuration (py_int duration)]
      else [NoVisiblePass])"
| "report (_, _) = [NoVisiblePass]"

text \<open>
  The choice of the location at the start of \<open>main\<close>: the command line when it gives
  both coordinates, the geolocation service otherwise. Neither value is inspected.
\<close>

definition choose_location :: "('sat, 'eph) world \<Rightarrow> args \<Rightarrow> (real \<times> real) outcome" where
  "choose_location w a =
     (case (arg_lat a, arg_lon a) of
        (Some lat, Some lon) \<Rightarrow> Value (lat, lon)
      | _ \<Rightarrow> get_location w)"

text \<open>The result of \<open>main\<close> is everything printed and the exit status of the process.\<close>

definition main :: "('sat, 'eph) world \<Rightarrow> args \<Rightarrow> message list \<times> nat" where
  "main w a =
     (case choose_location w a of
        SystemExit out status \<Rightarrow> (out, status)
      | Value (lat, lon) \<Rightarrow>
          (let twilight_threshold = arg_twilight a;
               banner = [YourLocation lat lon twilight_threshold]
           in (case get_iss_tle w of
                 SystemExit out status \<Rightarrow> (banner @ out, status)
               | Value tle \<Rightarrow>
                   (case next_visible_pass w lat lon tle twilight_threshold of
                      SystemExit out status \<Rightarrow> (banner @ out, status)
                    | Value r \<Rightarrow> (banner @ report r, 0)))))"

section \<open>Notions used in the statements\<close>

text \<open>
  A run of \<open>next_visible_pass\<close> reaches its loop with the satellite \<open>sat\<close>, the ephemeris
  \<open>eph\<close> and the events \<open>evs\<close>: both element lines are there, the constructor, the
  loading of the ephemeris and the event search all return, the search being asked
  about the observer at \<open>(lat, lon)\<close>, the 48 hours from \<open>now\<close> and 10 degrees.
\<close>

definition reaches_loop ::
  "('sat, 'eph) world \<Rightarrow> real \<Rightarrow> real \<Rightarrow> string list \<Rightarrow> 'sat \<Rightarrow> 'eph \<Rightarrow>
   (time \<times> event) list \<Rightarrow> bool" where
  "reaches_loop w lat lon tle sat eph evs \<longleftrightarrow>
     2 \<le> length tle \<and>
     EarthSatellite w (tle ! 0) (tle ! 1) = Inr sat \<and>
     load_de421 w = Inr eph \<and>
     find_events w sat (lat, lon) (now w)
       (real_of_int (utc_datetime (now w) + 48 * 3600 * 1000000) / 1000000) 10 = Inr evs"

text \<open>The invariant the specification gives for a location.\<close>

definition valid_location :: "real \<Rightarrow> real \<Rightarrow> bool" where
  "valid_location lat lon \<longleftrightarrow> - 90 \<le> lat \<and> lat \<le> 90 \<and> - 180 \<le> lon \<and> lon \<le> 180"

text \<open>
  The form of an element line in the two-line element format: 69 characters, the last
  one a digit that is the sum, modulo 10, of the digits among the first 68, a minus
  sign counting for 1.
\<close>

definition digit_value :: "char \<Rightarrow> nat" where
  "digit_value c =
     (if c = CHR ''-'' then 1
      else if (48 :: nat) \<le> of_char c \<and> (of_char c :: nat) \<le> 57 then of_char c - 48
      else 0)"

definition tle_checksum :: "string \<Rightarrow> nat" where
  "tle_checksum l = sum_list (map digit_value (take 68 l)) mod 10"

definition well_formed_line :: "string \<Rightarrow> bool" where
  "well_formed_line l \<longleftrightarrow>
     length l = 69 \<and> (48 :: nat) \<le> of_char (l ! 68) \<and> (of_char (l ! 68) :: nat) \<le> 57 \<and>
     digit_value (l ! 68) = tle_checksum l"

text \<open>The events are in strictly increasing order of time, as the event search gives them.\<close>

definition time_ordered :: "(time \<times> event) list \<Rightarrow> bool" where
  "time_ordered evs \<longleftrightarrow> sorted_wrt (<) (map fst evs)"


section \<open>Example worlds\<close>

text \<open>
  A world for running the definitions: the satellite is always sunlit, the sun stands
  at 12.5 degrees for the first 20000 seconds and at -25 degrees afterwards, and the
  event search returns the events of \<open>demo_events\<close> that fall into the window it is asked
  about. The element parser wants 64 characters in each line and nothing more: it looks
  neither at the full width nor at the checksum.
\<close>

definition demo_tle :: "string list" where
  "demo_tle =
     [''1 25544U 98067A   24001.50000000  .00016717  00000-0  10270-3 0  9009'',
      ''2 25544  51.6400 208.9163 0006317  69.9862  25.2906 15.49560532  1234'']"

definition demo_events :: "(time \<times> event) list" where
  "demo_events =
     [(600, SetEv),
      (5400, Rise), (5700, Culminate), (6000, SetEv),
      (40000, Rise), (40200, Culminate), (40390.5, SetEv),
      (46000, Rise), (46300, Culminate), (46600, SetEv),
      (200000, Rise)]"

definition demo_world :: "(unit, unit) world" where
  "demo_world =
     \<lparr> now = 0,
       EarthSatellite = (\<lambda>l1 l2. if 64 \<le> length l1 \<and> 64 \<le> length l2 then Inr ()
                                 else Inl (Raised ''bad element line'')),
       load_de421 = Inr (),
       is_sunlit = (\<lambda>sat eph t. Inr True),
       sun_altitude = (\<lambda>eph obs t. Inr (if t < 20000 then 12.5 else - 25)),
       find_events =
         (\<lambda>sat obs t0 t1 alt. Inr (filter (\<lambda>e. t0 \<le> fst e \<and> fst e < t1) demo_events)),
       ipinfo = Inr (51.5, 0),
       wheretheiss = Inr (Some (demo_tle ! 0), Some (demo_tle ! 1)) \<rparr>"

text \<open>The events of the 48 hours from instant 0: all but the last one.\<close>

definition demo_window :: "(time \<times> event) list" where
  "demo_window = butlast demo_events"

text \<open>
  The same world 46100 seconds later: the window then starts inside the third pass and
  ends after the rise at 200000 seconds, whose set lies beyond it.
\<close>

definition demo_late_world :: "(unit, unit) world" where
  "demo_late_world = demo_world\<lparr>now := 46100\<rparr>"

definition demo_late_window :: "(time \<times> event) list" where
  "demo_late_window = drop 8 demo_events"

text \<open>
  A world with one grazing pass at the very end of the window: the rise is 0.3
  microseconds and the set 0.1 microseconds before the 48 hours are over.
\<close>

definition demo_close_events :: "(time \<times> event) list" where
  "demo_close_events = [(172799.9999997, Rise), (172799.9999999, SetEv)]"

definition demo_close_world :: "(unit, unit) world" where
  "demo_close_world = demo_world\<lparr>find_events := (\<lambda>sat obs t0 t1 alt. Inr demo_close_events)\<rparr>"

text \<open>
  Malformed elements: the first line cut after 64 characters, the second with its
  checksum digit changed from 4 to 5.
\<close>

definition demo_bad_tle :: "string list" where
  "demo_bad_tle =
     [''1 25544U 98067A   24001.50000000  .00016717  00000-0  10270-3 0 '',
      ''2 25544  51.6400 208.9163 0006317  69.9862  25.2906 15.49560532  1235'']"

text \<open>The example world with these lines as the answer of the element service.\<close>

definition demo_bad_world :: "(unit, unit) world" where
  "demo_bad_world =
     demo_world\<lparr>wheretheiss := Inr (Some (demo_bad_tle ! 0), Some (demo_bad_tle ! 1))\<rparr>"

text \<open>
  A world that differs from \<open>demo_world\<close> wherever the run for the observer at
  \<open>(51.5, 0)\<close> does not look: the geolocation service, the event search for other
  observers, the sunlight away from the rises, the sun's altitude away from the rises.
\<close>

definition demo_other_world :: "(unit, unit) world" where
  "demo_other_world =
     demo_world
       \<lparr> is_sunlit := (\<lambda>sat eph t. Inr (t \<noteq> 40200)),
         sun_altitude :=
           (\<lambda>eph obs t. if (t, Rise) \<in> set demo_events \<and> obs = (51.5, 0)
                         then Inr (if t < 20000 then 12.5 else - 25)
                         else Inl (Raised ''no ephemeris data'')),
         find_events :=
           (\<lambda>sat obs t0 t1 alt. if obs = (51.5, 0)
                                 then Inr (filter (\<lambda>e. t0 \<le> fst e \<and> fst e < t1) demo_events)
                                 else Inr []),
         ipinfo := Inl (Raised ''offline'') \<rparr>"

section \<open>Rounding to the microsecond\<close>

lemma utc_datetime_mono: "a \<le> b \<Longrightarrow> utc_datetime a \<le> utc_datetime b"
  unfolding utc_datetime_def by (rule floor_mono) simp

lemma utc_datetime_ts_utc: "utc_datetime (ts_utc n) = n"
proof -
  have "\<lfloor>real_of_int n + 1 / 2\<rfloor> = n" by linarith
  then show ?thesis by (simp add: utc_datetime_def ts_utc_def)
qed

lemma utc_datetime_apart:
  assumes "a + 1 / 1000000 \<le> b"
  shows "utc_datetime a < utc_datetime b"
proof -
  from assms have "a * 1000000 + 1 / 2 + 1 \<le> b * 1000000 + 1 / 2" by simp
  then have "\<lfloor>a * 1000000 + 1 / 2 + 1\<rfloor> \<le> \<lfloor>b * 1000000 + 1 / 2\<rfloor>" by (rule floor_mono)
  moreover have "\<lfloor>a * 1000000 + 1 / 2 + 1\<rfloor> = \<lfloor>a * 1000000 + 1 / 2\<rfloor> + 1" by linarith
  ultimately show ?thesis by (simp add: utc_datetime_def)
qed

section \<open>Properties of the two loops\<close>

lemma find_set_Some:
  "find_set ti evs = Some tj \<Longrightarrow> (tj, SetEv) \<in> set evs \<and> ti < tj"
  by (induction evs) (auto split: if_splits)

lemma find_set_None_iff:
  "find_set ti evs = None \<longleftrightarrow> (\<forall>tj. (tj, SetEv) \<in> set evs \<longrightarrow> \<not> ti < tj)"
  by (induction evs) (auto split: if_splits)


lemma find_set_drop_prefix:
  "\<forall>e \<in> set pre. \<not> t < fst e \<Longrightarrow> find_set t (pre @ post) = find_set t post"
  by (induction pre) auto

text \<open>A returned pass starts at a visible rise and ends at the set the inner loop finds.\<close>

lemma pass_loop_full:
  "pass_loop vis evs rest r0 = Inr (Some r, Some d) \<Longrightarrow>
   \<exists>ti tj. (ti, Rise) \<in> set rest \<and> vis ti = Inr True \<and> find_set ti evs = Some tj \<and>
     r = utc_datetime ti \<and> d = total_seconds (utc_datetime tj - utc_datetime ti)"
proof (induction rest arbitrary: r0)
  case Nil
  then show ?case by simp
next
  case (Cons a rest)
  obtain t0 ev where a: "a = (t0, ev)" by (cases a)
  show ?case
  proof (cases "ev = Rise \<and> vis t0 = Inr True \<and> find_set t0 evs \<noteq> None")
    case True
    then obtain tj where tj: "find_set t0 evs = Some tj" by blast
    with True Cons.prems a
    have "r = utc_datetime t0" "d = total_seconds (utc_datetime tj - utc_datetime t0)"
      by auto
    with True tj a show ?thesis by auto
  next
    case False
    then obtain r1 where "pass_loop vis evs rest r1 = Inr (Some r, Some d)"
      using Cons.prems a by (auto split: if_splits sum.splits option.splits)
    from Cons.IH[OF this] show ?thesis by auto
  qed
qed

lemma pass_loop_start:
  "pass_loop vis evs rest r0 = Inr (Some r, d) \<Longrightarrow>
   r0 = Some r \<or> (\<exists>ti. (ti, Rise) \<in> set rest \<and> vis ti = Inr True \<and> r = utc_datetime ti)"
proof (induction rest arbitrary: r0)
  case Nil
  then show ?case by simp
next
  case (Cons a rest)
  obtain t0 ev where a: "a = (t0, ev)" by (cases a)
  show ?case
  proof (cases "ev = Rise \<and> vis t0 = Inr True")
    case True
    show ?thesis
    proof (cases "find_set t0 evs")
      case None
      with True Cons.prems a
      have "pass_loop vis evs rest (Some (utc_datetime t0)) = Inr (Some r, d)" by simp
      from Cons.IH[OF this] True a show ?thesis by auto
    next
      case (Some tj)
      with True Cons.prems a have "r = utc_datetime t0" by simp
      with True a show ?thesis by auto
    qed
  next
    case False
    then have "pass_loop vis evs rest r0 = Inr (Some r, d)"
      using Cons.prems a by (auto split: if_splits sum.splits)
    from Cons.IH[OF this] show ?thesis by auto
  qed
qed

text \<open>
  With the remaining events in order, the rise of a returned pass is the first one
  that is visible and followed by a set.
\<close>

lemma pass_loop_first_full:
  "sorted_wrt (<) (map fst rest) \<Longrightarrow> pass_loop vis evs rest r0 = Inr (Some r, Some d) \<Longrightarrow>
   \<exists>ti tj. (ti, Rise) \<in> set rest \<and> vis ti = Inr True \<and> find_set ti evs = Some tj \<and>
     r = utc_datetime ti \<and> d = total_seconds (utc_datetime tj - utc_datetime ti) \<and>
     (\<forall>t. (t, Rise) \<in> set rest \<and> t < ti \<longrightarrow>
        vis t = Inr False \<or> (vis t = Inr True \<and> find_set t evs = None))"
proof (induction rest arbitrary: r0)
  case Nil
  then show ?case by simp
next
  case (Cons a rest)
  obtain t0 ev where a: "a = (t0, ev)" by (cases a)
  from Cons.prems(1) a have srt: "sorted_wrt (<) (map fst rest)"
    and lt: "\<forall>x \<in> set rest. t0 < fst x" by auto
  show ?case
  proof (cases "ev = Rise \<and> vis t0 = Inr True \<and> find_set t0 evs \<noteq> None")
    case True
    then obtain tj where tj: "find_set t0 evs = Some tj" by blast
    with True Cons.prems(2) a
    have r: "r = utc_datetime t0" "d = total_seconds (utc_datetime tj - utc_datetime t0)"
      by auto
    have "\<forall>t. (t, Rise) \<in> set (a # rest) \<and> t < t0 \<longrightarrow>
        vis t = Inr False \<or> (vis t = Inr True \<and> find_set t evs = None)"
      using lt a by fastforce
    with True tj r a show ?thesis by auto
  next
    case False
    then obtain r1 where run: "pass_loop vis evs rest r1 = Inr (Some r, Some d)"
      and hd: "ev = Rise \<Longrightarrow>
        vis t0 = Inr False \<or> (vis t0 = Inr True \<and> find_set t0 evs = None)"
      using Cons.prems(2) a
      by (auto split: if_splits sum.splits option.splits)
    from Cons.IH[OF srt run] obtain ti tj where
      h: "(ti, Rise) \<in> set rest" "vis ti = Inr True" "find_set ti evs = Some tj"
         "r = utc_datetime ti" "d = total_seconds (utc_datetime tj - utc_datetime ti)"
         "\<forall>t. (t, Rise) \<in> set rest \<and> t < ti \<longrightarrow>
            vis t = Inr False \<or> (vis t = Inr True \<and> find_set t evs = None)"
      by blast
    have "\<forall>t. (t, Rise) \<in> set (a # rest) \<and> t < ti \<longrightarrow>
        vis t = Inr False \<or> (vis t = Inr True \<and> find_set t evs = None)"
      using h(6) hd a by auto
    with h(1-5) show ?thesis by auto
  qed
qed

lemma pass_loop_complete:
  "sorted_wrt (<) (map fst rest) \<Longrightarrow> (ti, Rise) \<in> set rest \<Longrightarrow> vis ti = Inr True \<Longrightarrow>
   (\<forall>t. (t, Rise) \<in> set rest \<and> t < ti \<longrightarrow> vis t = Inr False) \<Longrightarrow>
   find_set ti evs = Some tj \<Longrightarrow>
   pass_loop vis evs rest r0 =
     Inr (Some (utc_datetime ti), Some (total_seconds (utc_datetime tj - utc_datetime ti)))"
proof (induction rest arbitrary: r0)
  case Nil
  then show ?case by simp
next
  case (Cons a rest)
  obtain t0 ev where a: "a = (t0, ev)" by (cases a)
  from Cons.prems(1) a have srt: "sorted_wrt (<) (map fst rest)"
    and lt: "\<forall>x \<in> set rest. t0 < fst x" by auto
  show ?case
  proof (cases "a = (ti, Rise)")
    case True
    with Cons.prems(3,5) show ?thesis by simp
  next
    case False
    with Cons.prems(2) have mem: "(ti, Rise) \<in> set rest" by simp
    with lt have "t0 < ti" by fastforce
    with Cons.prems(4) a have "ev = Rise \<Longrightarrow> vis t0 = Inr False" by simp
    moreover have "pass_loop vis evs rest r0 =
        Inr (Some (utc_datetime ti), Some (total_seconds (utc_datetime tj - utc_datetime ti)))"
      using Cons.IH[OF srt mem Cons.prems(3) _ Cons.prems(5)] Cons.prems(4) by simp
    ultimately show ?thesis using a by simp
  qed
qed

text \<open>The loop looks at \<open>vis\<close> and at the inner loop's answer at the rises only.\<close>

lemma pass_loop_cong:
  "(\<forall>t. (t, Rise) \<in> set rest \<longrightarrow> vis1 t = vis2 t \<and> find_set t evs1 = find_set t evs2) \<Longrightarrow>
   pass_loop vis1 evs1 rest r0 = pass_loop vis2 evs2 rest r0"
  by (induction rest arbitrary: r0) (auto split: sum.splits option.splits)

lemma pass_loop_no_rise:
  "\<forall>e \<in> set pre. snd e \<noteq> Rise \<Longrightarrow>
   pass_loop vis evs (pre @ rest) r0 = pass_loop vis evs rest r0"
  by (induction pre) auto

lemma pass_loop_invisible:
  "\<forall>e \<in> set rest. snd e = Rise \<longrightarrow> vis (fst e) = Inr False \<Longrightarrow>
   pass_loop vis evs rest r0 = Inr (r0, None)"
  by (induction rest) auto

lemma pass_loop_no_set:
  "\<forall>e \<in> set rest. snd e = Rise \<longrightarrow>
      vis (fst e) = Inr False \<or> (vis (fst e) = Inr True \<and> find_set (fst e) evs = None) \<Longrightarrow>
   \<exists>r'. pass_loop vis evs rest r0 = Inr (r', None) \<and>
     (r' = None \<longleftrightarrow>
        r0 = None \<and> (\<forall>e \<in> set rest. snd e = Rise \<longrightarrow> vis (fst e) = Inr False))"
proof (induction rest arbitrary: r0)
  case Nil
  then show ?case by simp
next
  case (Cons a rest)
  obtain ti ev where a: "a = (ti, ev)" by (cases a)
  from Cons.prems have tl: "\<forall>e \<in> set rest. snd e = Rise \<longrightarrow>
      vis (fst e) = Inr False \<or> (vis (fst e) = Inr True \<and> find_set (fst e) evs = None)"
    by simp
  show ?case
  proof (cases "ev = Rise \<and> vis ti = Inr True")
    case True
    with Cons.prems a have "find_set ti evs = None" by auto
    with True a have "pass_loop vis evs (a # rest) r0 =
        pass_loop vis evs rest (Some (utc_datetime ti))"
      by simp
    with Cons.IH[OF tl, of "Some (utc_datetime ti)"] True a show ?thesis by auto
  next
    case False
    with Cons.prems a have "ev = Rise \<Longrightarrow> vis ti = Inr False" by auto
    with a have "pass_loop vis evs (a # rest) r0 = pass_loop vis evs rest r0"
      and "snd a = Rise \<longrightarrow> vis (fst a) = Inr False" by auto
    with Cons.IH[OF tl, of r0] show ?thesis by auto
  qed
qed

lemma pass_loop_returns:
  "\<forall>e \<in> set rest. snd e = Rise \<longrightarrow> (\<exists>b. vis (fst e) = Inr b) \<Longrightarrow>
   \<exists>res. pass_loop vis evs rest r0 = Inr res"
  by (induction rest arbitrary: r0) (auto split: option.splits)

section \<open>From the loop to \<open>next_visible_pass\<close> and \<open>main\<close>\<close>

lemma pass_body_reached:
  "reaches_loop w lat lon tle sat eph evs \<Longrightarrow>
   pass_body w lat lon tle thr = pass_loop (is_visible w sat eph (lat, lon) thr) evs evs None"
  by (simp add: reaches_loop_def pass_body_def latlon_def ts_utc_def timedelta_days_def)

lemma next_visible_pass_reached:
  "reaches_loop w lat lon tle sat eph evs \<Longrightarrow>
   next_visible_pass w lat lon tle thr = Value res \<longleftrightarrow>
   pass_loop (is_visible w sat eph (lat, lon) thr) evs evs None = Inr res"
  by (simp add: next_visible_pass_def pass_body_reached split: sum.splits)

lemma main_reports:
  "choose_location w a = Value (lat, lon) \<Longrightarrow> get_iss_tle w = Value tle \<Longrightarrow>
   next_visible_pass w lat lon tle (arg_twilight a) = Value res \<Longrightarrow>
   main w a = (YourLocation lat lon (arg_twilight a) # report res, 0)"
  by (simp add: main_def)

lemma is_visible_raise:
  assumes "thr1 \<le> thr2"
  shows "is_visible w sat eph obs thr1 t = Inr True \<Longrightarrow> is_visible w sat eph obs thr2 t = Inr True"
    and "is_visible w sat eph obs thr1 t = Inr False \<Longrightarrow> \<exists>b. is_visible w sat eph obs thr2 t = Inr b"
  using assms by (auto simp: is_visible_def split: sum.splits if_splits)


section \<open>The example worlds at work\<close>

lemma demo_reaches:
  "reaches_loop demo_world lat lon demo_tle () () demo_window"
  by (simp add: reaches_loop_def demo_world_def demo_tle_def demo_window_def demo_events_def
        utc_datetime_def)

lemma demo_ordered: "time_ordered demo_window"
  by (simp add: time_ordered_def demo_window_def demo_events_def)

lemma demo_visible:
  "is_visible demo_world () () obs thr t = Inr ((if t < 20000 then 12.5 else - 25) < thr)"
  by (simp add: is_visible_def demo_world_def)

lemma demo_choose:
  "choose_location w \<lparr> arg_lat = Some lat, arg_lon = Some lon, arg_twilight = thr \<rparr>
     = Value (lat, lon)"
  by (simp add: choose_location_def)

lemma demo_get_iss_tle: "get_iss_tle demo_world = Value demo_tle"
  by (simp add: get_iss_tle_def demo_world_def demo_tle_def)

lemma demo_late_reaches:
  "reaches_loop demo_late_world lat lon demo_tle () () demo_late_window"
  by (simp add: reaches_loop_def demo_late_world_def demo_world_def demo_tle_def
        demo_late_window_def demo_events_def utc_datetime_def)

lemma demo_late_visible:
  "is_visible demo_late_world () () obs thr t = Inr ((if t < 20000 then 12.5 else - 25) < thr)"
  by (simp add: is_visible_def demo_late_world_def demo_world_def)

lemma demo_late_get_iss_tle: "get_iss_tle demo_late_world = Value demo_tle"
  by (simp add: get_iss_tle_def demo_late_world_def demo_world_def demo_tle_def)

lemma demo_close_reaches:
  "reaches_loop demo_close_world lat lon demo_tle () () demo_close_events"
  by (simp add: reaches_loop_def demo_close_world_def demo_world_def demo_tle_def)

lemma demo_close_visible:
  "is_visible demo_close_world () () obs thr t = Inr ((if t < 20000 then 12.5 else - 25) < thr)"
  by (simp add: is_visible_def demo_close_world_def demo_world_def)

lemma demo_bad_reaches:
  "reaches_loop demo_bad_world lat lon demo_bad_tle () () demo_window"
  by (simp add: reaches_loop_def demo_bad_world_def demo_world_def demo_bad_tle_def
        demo_window_def demo_events_def utc_datetime_def)

lemma demo_bad_visible:
  "is_visible demo_bad_world () () obs thr t = Inr ((if t < 20000 then 12.5 else - 25) < thr)"
  by (simp add: is_visible_def demo_bad_world_def demo_world_def)

lemma demo_bad_get_iss_tle: "get_iss_tle demo_bad_world = Value demo_bad_tle"
  by (simp add: get_iss_tle_def demo_bad_world_def demo_bad_tle_def)

lemma demo_run_dark:
  "next_visible_pass demo_world lat lon demo_tle (- 18) = Value (Some 40000000000, Some 390.5)"
  by (simp add: next_visible_pass_reached[OF demo_reaches] demo_visible demo_window_def
        demo_events_def utc_datetime_def total_seconds_def)

section \<open>The pass that is returned\<close>



text \<open>
  Claim C2, as stated, fails. The guard of the inner loop compares instants, the
  duration is the difference of their \<open>datetime\<close>s. A rise 0.3 microseconds and a set
  0.1 microseconds before the end of the window are in the window and in order; both
  round to the end of the window, so the pass returned has the duration 0 and a rise
  time that is the end of the window, which the window excludes.
\<close>

theorem zero_duration_at_window_end:
  "reaches_loop demo_close_world 51.5 0 demo_tle () () demo_close_events \<and>
   time_ordered demo_close_events \<and>
   demo_close_events = [(172799.9999997, Rise), (172799.9999999, SetEv)] \<and>
   now demo_close_world \<le> 172799.9999997 \<and>
   172799.9999999 <
     real_of_int (utc_datetime (now demo_close_world) + 48 * 3600 * 1000000) / 1000000 \<and>
   next_visible_pass demo_close_world 51.5 0 demo_tle (- 18) =
     Value (Some 172800000000, Some 0) \<and>
   utc_datetime (now demo_close_world) + 48 * 3600 * 1000000 = 172800000000"
proof -
  have "next_visible_pass demo_close_world 51.5 0 demo_tle (- 18) =
     Value (Some 172800000000, Some 0)"
    by (simp add: next_visible_pass_reached[OF demo_close_reaches] demo_close_visible
          demo_close_events_def utc_datetime_def total_seconds_def)
  moreover have "time_ordered demo_close_events"
    by (simp add: time_ordered_def demo_close_events_def)
  moreover have "utc_datetime (now demo_close_world) + 48 * 3600 * 1000000 = 172800000000"
    by (simp add: demo_close_world_def demo_world_def utc_datetime_def)
  moreover have "now demo_close_world \<le> 172799.9999997 \<and>
      172799.9999999 <
        real_of_int (utc_datetime (now demo_close_world) + 48 * 3600 * 1000000) / 1000000"
    by (simp add: demo_close_world_def demo_world_def utc_datetime_def)
  ultimately show ?thesis using demo_close_reaches by (simp add: demo_close_events_def)
qed

text \<open>
  Claim C2, amended. When the run reaches its loop and every event found lies in the
  search window, from \<open>now\<close> (included) to 48 hours later (excluded), a returned pass
  runs from a rise to a strictly later set of the window; its rise time and duration
  are taken from the \<open>datetime\<close>s of the two, so the duration is greater than or equal to
  0, and strictly greater when the two are a microsecond or more apart, and the rise
  time lies between \<open>now\<close> and 48 hours later, both included.
\<close>

theorem next_visible_pass_duration_window:
  assumes "reaches_loop w lat lon tle sat eph evs"
    and "\<forall>e \<in> set evs. now w \<le> fst e \<and>
           fst e < real_of_int (utc_datetime (now w) + 48 * 3600 * 1000000) / 1000000"
    and "next_visible_pass w lat lon tle thr = Value (Some r, Some d)"
  shows "0 \<le> d \<and> utc_datetime (now w) \<le> r \<and> r \<le> utc_datetime (now w) + 48 * 3600 * 1000000 \<and>
         (\<exists>ti tj. (ti, Rise) \<in> set evs \<and> (tj, SetEv) \<in> set evs \<and> ti < tj \<and>
            r = utc_datetime ti \<and> d = total_seconds (utc_datetime tj - utc_datetime ti) \<and>
            (ti + 1 / 1000000 \<le> tj \<longrightarrow> 0 < d))"
proof -
  let ?N = "utc_datetime (now w) + 48 * 3600 * 1000000"
  from assms(1,3)
  have "pass_loop (is_visible w sat eph (lat, lon) thr) evs evs None = Inr (Some r, Some d)"
    by (simp add: next_visible_pass_reached)
  from pass_loop_full[OF this] obtain ti tj where
    ti: "(ti, Rise) \<in> set evs" and tj: "find_set ti evs = Some tj"
    and r: "r = utc_datetime ti"
    and d: "d = total_seconds (utc_datetime tj - utc_datetime ti)" by blast
  from find_set_Some[OF tj] have tj_in: "(tj, SetEv) \<in> set evs" "ti < tj" by simp_all
  from tj_in(2) have "utc_datetime ti \<le> utc_datetime tj" by (simp add: utc_datetime_mono)
  with d have nonneg: "0 \<le> d" by (simp add: total_seconds_def)
  have pos: "0 < d" if "ti + 1 / 1000000 \<le> tj"
    using utc_datetime_apart[OF that] d by (simp add: total_seconds_def)
  from assms(2) ti have win: "now w \<le> ti" "ti < ts_utc ?N" by (force simp: ts_utc_def)+
  from win(1) r have lo: "utc_datetime (now w) \<le> r" by (simp add: utc_datetime_mono)
  from win(2) have "utc_datetime ti \<le> utc_datetime (ts_utc ?N)"
    by (simp add: utc_datetime_mono)
  with r have hi: "r \<le> ?N" by (simp add: utc_datetime_ts_utc)
  from ti tj_in r d pos have "\<exists>ti tj. (ti, Rise) \<in> set evs \<and> (tj, SetEv) \<in> set evs \<and> ti < tj \<and>
      r = utc_datetime ti \<and> d = total_seconds (utc_datetime tj - utc_datetime ti) \<and>
      (ti + 1 / 1000000 \<le> tj \<longrightarrow> 0 < d)"
    by blast
  with nonneg lo hi show ?thesis by simp
qed

theorem next_visible_pass_duration_window_witness:
  "reaches_loop demo_world 51.5 0 demo_tle () () demo_window \<and>
   next_visible_pass demo_world 51.5 0 demo_tle (- 18) = Value (Some 40000000000, Some 390.5) \<and>
   (0::real) \<le> 390.5 \<and> utc_datetime (now demo_world) \<le> 40000000000 \<and>
   40000000000 \<le> utc_datetime (now demo_world) + 48 * 3600 * 1000000 \<and>
   (\<exists>ti tj. (ti, Rise) \<in> set demo_window \<and> (tj, SetEv) \<in> set demo_window \<and> ti < tj \<and>
      40000000000 = utc_datetime ti \<and>
      390.5 = total_seconds (utc_datetime tj - utc_datetime ti))"
proof -
  have win: "\<forall>e \<in> set demo_window. now demo_world \<le> fst e \<and>
      fst e < real_of_int (utc_datetime (now demo_world) + 48 * 3600 * 1000000) / 1000000"
    by (simp add: demo_world_def demo_window_def demo_events_def utc_datetime_def)
  from next_visible_pass_duration_window[OF demo_reaches win demo_run_dark]
    demo_reaches demo_run_dark
  show ?thesis by blast
qed

section \<open>Raising the twilight threshold\<close>

text \<open>
  Claim C3. With the same world, location, elements and time-ordered events, if the
  run with threshold \<open>thr1\<close> returns a pass rising at \<open>r1\<close> and \<open>thr1 \<le> thr2\<close>, then the
  run with the raised threshold \<open>thr2\<close> returns a pass too, rising at \<open>r1\<close> or earlier.
\<close>

theorem raised_threshold_not_later:
  assumes "reaches_loop w lat lon tle sat eph evs" and "time_ordered evs"
    and "thr1 \<le> thr2"
    and "next_visible_pass w lat lon tle thr1 = Value (Some r1, Some d1)"
  shows "\<exists>r2 d2. next_visible_pass w lat lon tle thr2 = Value (Some r2, Some d2) \<and> r2 \<le> r1"
proof -
  let ?vis1 = "is_visible w sat eph (lat, lon) thr1"
  let ?vis2 = "is_visible w sat eph (lat, lon) thr2"
  from assms(2) have srt: "sorted_wrt (<) (map fst evs)" by (simp add: time_ordered_def)
  from assms(1,4) have "pass_loop ?vis1 evs evs None = Inr (Some r1, Some d1)"
    by (simp add: next_visible_pass_reached)
  from pass_loop_first_full[OF srt this] obtain t1 s1 where
    t1: "(t1, Rise) \<in> set evs" "?vis1 t1 = Inr True"
    and s1: "find_set t1 evs = Some s1"
    and r1: "r1 = utc_datetime t1"
    and before1: "\<forall>t. (t, Rise) \<in> set evs \<and> t < t1 \<longrightarrow>
        ?vis1 t = Inr False \<or> (?vis1 t = Inr True \<and> find_set t evs = None)"
    by blast
  from find_set_Some[OF s1] have s1_in: "(s1, SetEv) \<in> set evs" "t1 < s1" by simp_all
  have earlier: "?vis1 t = Inr False" if "(t, Rise) \<in> set evs" "t < t1" for t
  proof -
    have "find_set t evs \<noteq> None" using s1_in that(2) by (auto simp: find_set_None_iff)
    with before1 that show ?thesis by auto
  qed
  define R where "R = {t. (t, Rise) \<in> set evs \<and> t \<le> t1 \<and> ?vis2 t = Inr True}"
  have "R \<subseteq> fst ` set evs" by (force simp: R_def)
  then have fin: "finite R" by (rule finite_subset) simp
  have "t1 \<in> R" using t1 is_visible_raise(1)[OF assms(3)] by (simp add: R_def)
  then have ne: "R \<noteq> {}" by blast
  define t2 where "t2 = Min R"
  have "t2 \<in> R" unfolding t2_def using fin ne by (rule Min_in)
  then have t2: "(t2, Rise) \<in> set evs" "t2 \<le> t1" "?vis2 t2 = Inr True"
    by (simp_all add: R_def)
  have before: "?vis2 t = Inr False" if "(t, Rise) \<in> set evs" "t < t2" for t
  proof -
    from that t2(2) have lt: "t < t1" by simp
    from is_visible_raise(2)[OF assms(3) earlier[OF that(1) lt]]
    obtain b where b: "?vis2 t = Inr b" by blast
    have "\<not> b"
    proof
      assume b
      with b that(1) lt have "t \<in> R" by (simp add: R_def)
      then have "t2 \<le> t" unfolding t2_def using fin by simp
      with that(2) show False by simp
    qed
    with b show ?thesis by simp
  qed
  from s1_in t2(2) have "find_set t2 evs \<noteq> None" by (auto simp: find_set_None_iff)
  then obtain tj where tj: "find_set t2 evs = Some tj" by blast
  have "\<forall>t. (t, Rise) \<in> set evs \<and> t < t2 \<longrightarrow> ?vis2 t = Inr False"
    using before by blast
  from pass_loop_complete[OF srt t2(1) t2(3) this tj, of None]
  have "next_visible_pass w lat lon tle thr2 =
      Value (Some (utc_datetime t2), Some (total_seconds (utc_datetime tj - utc_datetime t2)))"
    using assms(1) by (simp add: next_visible_pass_reached)
  moreover from t2(2) r1 have "utc_datetime t2 \<le> r1" by (simp add: utc_datetime_mono)
  ultimately show ?thesis by blast
qed

theorem raised_threshold_not_later_witness:
  "reaches_loop demo_world 51.5 0 demo_tle () () demo_window \<and> time_ordered demo_window \<and>
   (- 18 :: real) \<le> 20 \<and>
   next_visible_pass demo_world 51.5 0 demo_tle (- 18) = Value (Some 40000000000, Some 390.5) \<and>
   next_visible_pass demo_world 51.5 0 demo_tle 20 = Value (Some 5400000000, Some 600) \<and>
   (\<exists>r2 d2. next_visible_pass demo_world 51.5 0 demo_tle 20 = Value (Some r2, Some d2) \<and>
      r2 \<le> 40000000000)"
proof -
  have le: "(- 18 :: real) \<le> 20" by simp
  note run1 = demo_run_dark[of "51.5" 0]
  have run2: "next_visible_pass demo_world 51.5 0 demo_tle 20 =
      Value (Some 5400000000, Some 600)"
    by (simp add: next_visible_pass_reached[OF demo_reaches] demo_visible demo_window_def
          demo_events_def utc_datetime_def total_seconds_def)
  from raised_threshold_not_later[OF demo_reaches demo_ordered le run1]
    demo_reaches demo_ordered le run1 run2
  show ?thesis by simp
qed

section \<open>The search starts at a rise only\<close>

text \<open>
  Claim C9. Let the events be in strictly increasing order of time and start with a
  stretch \<open>pre\<close> that has no rise but has a set at \<open>s\<close>, a set with no rise before it.
  Then \<open>next_visible_pass\<close> behaves as on the remaining events \<open>post\<close> alone, and a rise
  time it returns is the \<open>datetime\<close> of a rise event of \<open>post\<close>, later than \<open>s\<close>: the set
  is neither the start nor the end of a pass.
\<close>

theorem set_without_rise_skipped:
  assumes "reaches_loop w lat lon tle sat eph evs" and "time_ordered evs"
    and "evs = pre @ post" and "\<forall>e \<in> set pre. snd e \<noteq> Rise" and "(s, SetEv) \<in> set pre"
  shows "next_visible_pass w lat lon tle thr =
           (case pass_loop (is_visible w sat eph (lat, lon) thr) post post None of
              Inl e \<Rightarrow> SystemExit [ErrorCalculating e] 1
            | Inr res \<Rightarrow> Value res) \<and>
         (\<forall>r d. next_visible_pass w lat lon tle thr = Value (Some r, d) \<longrightarrow>
            (\<exists>ti. r = utc_datetime ti \<and> (ti, Rise) \<in> set post \<and> s < ti))"
proof -
  let ?vis = "is_visible w sat eph (lat, lon) thr"
  from assms(2,3) have before: "\<forall>x \<in> set pre. \<forall>y \<in> set post. fst x < fst y"
    by (simp add: time_ordered_def sorted_wrt_append)
  have "find_set t evs = find_set t post" if "(t, Rise) \<in> set post" for t
  proof -
    from before that have "\<forall>e \<in> set pre. \<not> t < fst e" by force
    from find_set_drop_prefix[OF this] assms(3) show ?thesis by simp
  qed
  then have "pass_loop ?vis evs post None = pass_loop ?vis post post None"
    by (intro pass_loop_cong) simp
  with pass_loop_no_rise[OF assms(4), of ?vis evs post None] assms(3)
  have eq: "pass_loop ?vis evs evs None = pass_loop ?vis post post None" by simp
  have "\<exists>ti. r = utc_datetime ti \<and> (ti, Rise) \<in> set post \<and> s < ti"
    if "next_visible_pass w lat lon tle thr = Value (Some r, d)" for r d
  proof -
    from that assms(1) eq have "pass_loop ?vis post post None = Inr (Some r, d)"
      by (simp add: next_visible_pass_reached)
    from pass_loop_start[OF this] obtain ti where
      ti: "(ti, Rise) \<in> set post" "r = utc_datetime ti" by auto
    with before assms(5) have "s < ti" by force
    with ti show ?thesis by blast
  qed
  with eq assms(1) show ?thesis by (simp add: next_visible_pass_def pass_body_reached)
qed

theorem set_without_rise_skipped_witness:
  "reaches_loop demo_world 51.5 0 demo_tle () () demo_window \<and> time_ordered demo_window \<and>
   demo_window = [(600, SetEv)] @ tl demo_window \<and>
   (600 :: real, SetEv) \<in> set [(600, SetEv)] \<and>
   next_visible_pass demo_world 51.5 0 demo_tle (- 18) =
     (case pass_loop (is_visible demo_world () () (51.5, 0) (- 18)) (tl demo_window)
             (tl demo_window) None of
        Inl e \<Rightarrow> SystemExit [ErrorCalculating e] 1
      | Inr res \<Rightarrow> Value res) \<and>
   (\<exists>ti. 40000000000 = utc_datetime ti \<and> (ti, Rise) \<in> set (tl demo_window) \<and> 600 < ti)"
proof -
  have split: "demo_window = [(600, SetEv)] @ tl demo_window"
    by (simp add: demo_window_def demo_events_def)
  have pre: "\<forall>e \<in> set [(600 :: real, SetEv)]. snd e \<noteq> Rise" by simp
  have mem: "(600 :: real, SetEv) \<in> set [(600, SetEv)]" by simp
  note skipped =
    set_without_rise_skipped[OF demo_reaches demo_ordered split pre mem, of "51.5" 0 "- 18"]
  from skipped demo_run_dark[of "51.5" 0]
  have "\<exists>ti. 40000000000 = utc_datetime ti \<and> (ti, Rise) \<in> set (tl demo_window) \<and> 600 < ti"
    by blast
  with skipped demo_reaches demo_ordered split show ?thesis by simp
qed

section \<open>The visibility predicate\<close>

text \<open>
  Claim C5. At every instant \<open>t\<close>, \<open>is_visible\<close> returns true if and only if the
  satellite is sunlit at \<open>t\<close> and the altitude of the sun seen from the observer at \<open>t\<close>
  is strictly less than the twilight threshold.
\<close>

theorem is_visible_iff_sunlit_and_dark:
  "is_visible w sat eph obs thr t = Inr True \<longleftrightarrow>
   is_sunlit w sat eph t = Inr True \<and>
   (\<exists>sun_alt. sun_altitude w eph obs t = Inr sun_alt \<and> sun_alt < thr)"
  by (auto simp: is_visible_def split: sum.splits)

theorem is_visible_iff_sunlit_and_dark_witness:
  "is_visible demo_world () () (51.5, 0) (- 18) 40000 = Inr True \<and>
   is_sunlit demo_world () () 40000 = Inr True \<and>
   sun_altitude demo_world () (51.5, 0) 40000 = Inr (- 25) \<and>
   is_visible demo_world () () (51.5, 0) (- 18) 5400 \<noteq> Inr True \<and>
   sun_altitude demo_world () (51.5, 0) 5400 = Inr 12.5"
  using is_visible_iff_sunlit_and_dark[of demo_world "()" "()" "(51.5, 0)" "- 18" 40000]
    is_visible_iff_sunlit_and_dark[of demo_world "()" "()" "(51.5, 0)" "- 18" 5400]
  by (simp add: demo_world_def)

section \<open>No pass\<close>

text \<open>
  Claim C6. When the run reaches its loop and \<open>is_visible\<close> returns false at every rise
  event of the window, \<open>next_visible_pass\<close> returns \<open>None\<close> for the rise time and for the
  duration, and \<open>main\<close> prints that no visible pass was found and ends with status 0:
  a normal result, neither an exception nor an error exit.
\<close>

theorem no_visible_rise_no_pass:
  assumes "reaches_loop w lat lon tle sat eph evs"
    and "\<forall>e \<in> set evs. snd e = Rise \<longrightarrow>
           is_visible w sat eph (lat, lon) (arg_twilight a) (fst e) = Inr False"
    and "choose_location w a = Value (lat, lon)"
    and "get_iss_tle w = Value tle"
  shows "next_visible_pass w lat lon tle (arg_twilight a) = Value (None, None) \<and>
         main w a = ([YourLocation lat lon (arg_twilight a), NoVisiblePass], 0)"
proof -
  have "next_visible_pass w lat lon tle (arg_twilight a) = Value (None, None)"
    using assms(1) pass_loop_invisible[OF assms(2)] by (simp add: next_visible_pass_reached)
  with main_reports[OF assms(3,4) this] show ?thesis by simp
qed

theorem no_visible_rise_no_pass_witness:
  "reaches_loop demo_world 51.5 0 demo_tle () () demo_window \<and>
   next_visible_pass demo_world 51.5 0 demo_tle (- 30) = Value (None, None) \<and>
   main demo_world \<lparr> arg_lat = Some 51.5, arg_lon = Some 0, arg_twilight = - 30 \<rparr> =
     ([YourLocation 51.5 0 (- 30), NoVisiblePass], 0)"
proof -
  let ?a = "\<lparr> arg_lat = Some 51.5, arg_lon = Some 0, arg_twilight = - 30 \<rparr>"
  have inv: "\<forall>e \<in> set demo_window. snd e = Rise \<longrightarrow>
      is_visible demo_world () () (51.5, 0) (arg_twilight ?a) (fst e) = Inr False"
    by (simp add: demo_visible demo_window_def demo_events_def)
  from no_visible_rise_no_pass[OF demo_reaches inv demo_choose demo_get_iss_tle]
    demo_reaches
  show ?thesis by simp
qed

text \<open>
  Claim C10. Let every call of \<open>is_visible\<close> at a rise return, let \<open>r0\<close> be the
  chronologically first rise at which it returns true, and let no set event be
  strictly later than \<open>r0\<close>. Then \<open>next_visible_pass\<close> returns a rise time with the
  duration \<open>None\<close>, and \<open>main\<close> prints that no visible pass was found.
\<close>

theorem truncated_pass_reported_as_none:
  assumes "reaches_loop w lat lon tle sat eph evs"
    and "\<forall>e \<in> set evs. snd e = Rise \<longrightarrow>
           (\<exists>b. is_visible w sat eph (lat, lon) (arg_twilight a) (fst e) = Inr b)"
    and "(r0, Rise) \<in> set evs"
    and "is_visible w sat eph (lat, lon) (arg_twilight a) r0 = Inr True"
    and "\<forall>e \<in> set evs. snd e = Rise \<and>
           is_visible w sat eph (lat, lon) (arg_twilight a) (fst e) = Inr True \<longrightarrow> r0 \<le> fst e"
    and "\<forall>e \<in> set evs. snd e = SetEv \<longrightarrow> \<not> r0 < fst e"
    and "choose_location w a = Value (lat, lon)"
    and "get_iss_tle w = Value tle"
  shows "(\<exists>r. next_visible_pass w lat lon tle (arg_twilight a) = Value (Some r, None)) \<and>
         main w a = ([YourLocation lat lon (arg_twilight a), NoVisiblePass], 0)"
proof -
  let ?vis = "is_visible w sat eph (lat, lon) (arg_twilight a)"
  have "?vis (fst e) = Inr False \<or> (?vis (fst e) = Inr True \<and> find_set (fst e) evs = None)"
    if e: "e \<in> set evs" "snd e = Rise" for e
  proof (cases "?vis (fst e) = Inr True")
    case True
    with assms(5) e have "r0 \<le> fst e" by blast
    with assms(6) have "\<forall>tj. (tj, SetEv) \<in> set evs \<longrightarrow> \<not> fst e < tj" by force
    then have "find_set (fst e) evs = None" by (simp add: find_set_None_iff)
    with True show ?thesis by simp
  next
    case False
    with assms(2) e show ?thesis by force
  qed
  then have "\<forall>e \<in> set evs. snd e = Rise \<longrightarrow>
      ?vis (fst e) = Inr False \<or> (?vis (fst e) = Inr True \<and> find_set (fst e) evs = None)"
    by blast
  from pass_loop_no_set[OF this, of None] obtain r' where
    run: "pass_loop ?vis evs evs None = Inr (r', None)"
    and none: "r' = None \<longleftrightarrow> (\<forall>e \<in> set evs. snd e = Rise \<longrightarrow> ?vis (fst e) = Inr False)"
    by auto
  from assms(3,4) have "\<not> (\<forall>e \<in> set evs. snd e = Rise \<longrightarrow> ?vis (fst e) = Inr False)"
    by force
  with none obtain r where "r' = Some r" by auto
  with run assms(1)
  have res: "next_visible_pass w lat lon tle (arg_twilight a) = Value (Some r, None)"
    by (simp add: next_visible_pass_reached)
  from main_reports[OF assms(7,8) res] res show ?thesis by auto
qed

theorem truncated_pass_reported_as_none_witness:
  "reaches_loop demo_late_world 51.5 0 demo_tle () () demo_late_window \<and>
   (200000, Rise) \<in> set demo_late_window \<and>
   is_visible demo_late_world () () (51.5, 0) (- 18) 200000 = Inr True \<and>
   (\<exists>r. next_visible_pass demo_late_world 51.5 0 demo_tle (- 18) = Value (Some r, None)) \<and>
   main demo_late_world \<lparr> arg_lat = Some 51.5, arg_lon = Some 0, arg_twilight = - 18 \<rparr> =
     ([YourLocation 51.5 0 (- 18), NoVisiblePass], 0)"
proof -
  let ?a = "\<lparr> arg_lat = Some 51.5, arg_lon = Some 0, arg_twilight = - 18 \<rparr>"
  let ?vis = "is_visible demo_late_world () () (51.5, 0) (arg_twilight ?a)"
  have ret: "\<forall>e \<in> set demo_late_window. snd e = Rise \<longrightarrow> (\<exists>b. ?vis (fst e) = Inr b)"
    by (simp add: demo_late_visible)
  have mem: "(200000, Rise) \<in> set demo_late_window"
    by (simp add: demo_late_window_def demo_events_def)
  have vis: "?vis 200000 = Inr True" by (simp add: demo_late_visible)
  have first: "\<forall>e \<in> set demo_late_window. snd e = Rise \<and> ?vis (fst e) = Inr True \<longrightarrow>
      200000 \<le> fst e"
    by (simp add: demo_late_window_def demo_events_def)
  have noset: "\<forall>e \<in> set demo_late_window. snd e = SetEv \<longrightarrow> \<not> 200000 < fst e"
    by (simp add: demo_late_window_def demo_events_def)
  from truncated_pass_reported_as_none[OF demo_late_reaches ret mem vis first noset
      demo_choose demo_late_get_iss_tle]
    demo_late_reaches mem vis
  show ?thesis by simp
qed

section \<open>Errors\<close>

text \<open>
  Claim C7, as stated, fails. The script does not look at the element lines; only the
  library's parser does, inside the constructor \<open>EarthSatellite\<close>. In a world whose
  parser accepts them, a first line cut after 64 characters and a second line with a
  wrong checksum digit are propagated: \<open>next_visible_pass\<close> returns a pass and \<open>main\<close>
  prints it, with status 0.
\<close>

theorem malformed_elements_propagated:
  "\<not> well_formed_line (demo_bad_tle ! 0) \<and> \<not> well_formed_line (demo_bad_tle ! 1) \<and>
   well_formed_line (demo_tle ! 0) \<and> well_formed_line (demo_tle ! 1) \<and>
   wheretheiss demo_bad_world = Inr (Some (demo_bad_tle ! 0), Some (demo_bad_tle ! 1)) \<and>
   next_visible_pass demo_bad_world 51.5 0 demo_bad_tle (- 18) =
     Value (Some 40000000000, Some 390.5) \<and>
   main demo_bad_world \<lparr> arg_lat = Some 51.5, arg_lon = Some 0, arg_twilight = - 18 \<rparr> =
     ([YourLocation 51.5 0 (- 18), NextPassAt 40000000000, PassDuration 390], 0)"
proof -
  have bad: "\<not> well_formed_line (demo_bad_tle ! 0) \<and> \<not> well_formed_line (demo_bad_tle ! 1)"
    by (simp add: well_formed_line_def demo_bad_tle_def tle_checksum_def digit_value_def)
  have good: "well_formed_line (demo_tle ! 0) \<and> well_formed_line (demo_tle ! 1)"
    by (simp add: well_formed_line_def demo_tle_def tle_checksum_def digit_value_def)
  have src: "wheretheiss demo_bad_world = Inr (Some (demo_bad_tle ! 0), Some (demo_bad_tle ! 1))"
    by (simp add: demo_bad_world_def)
  have run: "next_visible_pass demo_bad_world 51.5 0 demo_bad_tle (- 18) =
      Value (Some 40000000000, Some 390.5)"
    by (simp add: next_visible_pass_reached[OF demo_bad_reaches] demo_bad_visible
          demo_window_def demo_events_def utc_datetime_def total_seconds_def)
  have "main demo_bad_world \<lparr> arg_lat = Some 51.5, arg_lon = Some 0, arg_twilight = - 18 \<rparr> =
     ([YourLocation 51.5 0 (- 18), NextPassAt 40000000000, PassDuration 390], 0)"
    using main_reports[OF demo_choose demo_bad_get_iss_tle, of "51.5" 0 "- 18"] run
    by (simp add: py_int_def)
  with bad good src run show ?thesis by simp
qed

text \<open>
  Claim C7, amended. The elements are checked by the library's parser only. When the
  constructor \<open>EarthSatellite\<close> raises on the two lines, or the list holds fewer than two
  lines, \<open>next_visible_pass\<close> prints that exception and leaves the process with status
  1, returning no rise time and no duration. The script checks neither the length nor
  the checksum of a line itself.
\<close>

theorem rejected_elements_exit:
  assumes "length tle < 2 \<and> e = IndexError \<or>
           2 \<le> length tle \<and> EarthSatellite w (tle ! 0) (tle ! 1) = Inl e"
  shows "next_visible_pass w lat lon tle thr = SystemExit [ErrorCalculating e] 1"
  using assms by (auto simp: next_visible_pass_def pass_body_def)

theorem rejected_elements_exit_witness:
  "EarthSatellite demo_world (take 40 (demo_tle ! 0)) (demo_tle ! 1) =
     Inl (Raised ''bad element line'') \<and>
   next_visible_pass demo_world 51.5 0 [take 40 (demo_tle ! 0), demo_tle ! 1] (- 18) =
     SystemExit [ErrorCalculating (Raised ''bad element line'')] 1 \<and>
   next_visible_pass demo_world 51.5 0 [demo_tle ! 0] (- 18) =
     SystemExit [ErrorCalculating IndexError] 1"
proof -
  have rej: "EarthSatellite demo_world (take 40 (demo_tle ! 0)) (demo_tle ! 1) =
     Inl (Raised ''bad element line'')"
    by (simp add: demo_world_def demo_tle_def)
  from rejected_elements_exit[of "[take 40 (demo_tle ! 0), demo_tle ! 1]"
      "Raised ''bad element line''" demo_world "51.5" 0 "- 18"]
    rejected_elements_exit[of "[demo_tle ! 0]" IndexError demo_world "51.5" 0 "- 18"] rej
  show ?thesis by simp
qed

text \<open>
  Claim C4, as stated, fails: a latitude of 91 degrees and a longitude of 200 degrees
  are outside the ranges, and the program searches the events for that location and
  reports a pass, ending with status 0.
\<close>

theorem out_of_range_location_accepted:
  "\<not> valid_location 91 200 \<and>
   next_visible_pass demo_world 91 200 demo_tle (- 18) =
     Value (Some 40000000000, Some 390.5) \<and>
   main demo_world \<lparr> arg_lat = Some 91, arg_lon = Some 200, arg_twilight = - 18 \<rparr> =
     ([YourLocation 91 200 (- 18), NextPassAt 40000000000, PassDuration 390], 0)"
proof -
  note run = demo_run_dark[of 91 200]
  have "main demo_world \<lparr> arg_lat = Some 91, arg_lon = Some 200, arg_twilight = - 18 \<rparr> =
     ([YourLocation 91 200 (- 18), NextPassAt 40000000000, PassDuration 390], 0)"
    using main_reports[OF demo_choose demo_get_iss_tle, of 91 200 "- 18"] run
    by (simp add: py_int_def)
  with run show ?thesis by (simp add: valid_location_def)
qed

text \<open>
  Claim C4, amended. The script does not check the ranges of latitude and longitude:
  for every pair of values, when the library calls return for the observer built from
  them, \<open>next_visible_pass\<close> returns the result of its loop over the events found for
  that observer. It ends in an error only when a library call raises or an element line
  is missing.
\<close>

theorem location_not_validated:
  assumes "reaches_loop w lat lon tle sat eph evs"
    and "\<forall>e \<in> set evs. snd e = Rise \<longrightarrow>
           (\<exists>b. is_visible w sat eph (lat, lon) thr (fst e) = Inr b)"
  shows "\<exists>res. next_visible_pass w lat lon tle thr = Value res \<and>
           pass_loop (is_visible w sat eph (lat, lon) thr) evs evs None = Inr res"
  using pass_loop_returns[OF assms(2), of evs None] assms(1)
  by (auto simp: next_visible_pass_reached)

theorem location_not_validated_witness:
  "\<not> valid_location 91 200 \<and>
   reaches_loop demo_world 91 200 demo_tle () () demo_window \<and>
   (\<exists>res. next_visible_pass demo_world 91 200 demo_tle (- 18) = Value res \<and>
      pass_loop (is_visible demo_world () () (91, 200) (- 18)) demo_window demo_window None =
        Inr res)"
proof -
  have ret: "\<forall>e \<in> set demo_window. snd e = Rise \<longrightarrow>
      (\<exists>b. is_visible demo_world () () (91, 200) (- 18) (fst e) = Inr b)"
    by (simp add: demo_visible)
  from location_not_validated[OF demo_reaches ret] demo_reaches
  show ?thesis by (simp add: valid_location_def)
qed

section \<open>Determinism\<close>

text \<open>
  Claim C8. Two runs of \<open>next_visible_pass\<close> with the same elements, latitude,
  longitude and twilight threshold return the same result whenever their worlds agree on
  what the run observes: the starting instant read from the clock, the parsing of the
  two element lines, the loaded ephemeris, the answer of the event search for this
  satellite, this observer and the window of 48 hours, and, at the rise events of that
  answer only, the sunlight on the satellite and, where it is sunlit, the altitude of
  the sun for this observer. The worlds may differ in everything else: at other
  instants, for other observers, in the two web services.
\<close>

theorem next_visible_pass_deterministic:
  assumes clock: "now w1 = now w2"
    and parse: "EarthSatellite w1 (tle ! 0) (tle ! 1) = EarthSatellite w2 (tle ! 0) (tle ! 1)"
    and ephem: "load_de421 w1 = load_de421 w2"
    and search: "\<And>sat. EarthSatellite w1 (tle ! 0) (tle ! 1) = Inr sat \<Longrightarrow>
      find_events w1 sat (lat, lon) (now w1)
        (real_of_int (utc_datetime (now w1) + 48 * 3600 * 1000000) / 1000000) 10 =
      find_events w2 sat (lat, lon) (now w1)
        (real_of_int (utc_datetime (now w1) + 48 * 3600 * 1000000) / 1000000) 10"
    and observe: "\<And>sat eph evs t. reaches_loop w1 lat lon tle sat eph evs \<Longrightarrow>
      (t, Rise) \<in> set evs \<Longrightarrow>
      is_sunlit w1 sat eph t = is_sunlit w2 sat eph t \<and>
      (is_sunlit w1 sat eph t = Inr True \<longrightarrow>
         sun_altitude w1 eph (lat, lon) t = sun_altitude w2 eph (lat, lon) t)"
  shows "next_visible_pass w1 lat lon tle thr = next_visible_pass w2 lat lon tle thr"
proof -
  let ?T = "real_of_int (utc_datetime (now w1) + 48 * 3600 * 1000000) / 1000000"
  have body: "pass_body w lat lon tle thr =
      (if length tle < 2 then Inl IndexError
       else case EarthSatellite w (tle ! 0) (tle ! 1) of
         Inl e \<Rightarrow> Inl e
       | Inr sat \<Rightarrow>
           (case load_de421 w of
              Inl e \<Rightarrow> Inl e
            | Inr eph \<Rightarrow>
                (case find_events w sat (lat, lon) (now w)
                        (real_of_int (utc_datetime (now w) + 48 * 3600 * 1000000) / 1000000)
                        10 of
                   Inl e \<Rightarrow> Inl e
                 | Inr evs \<Rightarrow>
                     pass_loop (is_visible w sat eph (lat, lon) thr) evs evs None)))"
    for w :: "('a, 'b) world"
    by (simp add: pass_body_def latlon_def ts_utc_def timedelta_days_def Let_def
          split: sum.splits)
  have loops: "pass_loop (is_visible w1 sat eph (lat, lon) thr) evs evs None =
      pass_loop (is_visible w2 sat eph (lat, lon) thr) evs evs None"
    if "2 \<le> length tle" "EarthSatellite w1 (tle ! 0) (tle ! 1) = Inr sat"
      "load_de421 w1 = Inr eph" "find_events w1 sat (lat, lon) (now w1) ?T 10 = Inr evs"
    for sat eph evs
  proof (rule pass_loop_cong, intro allI impI conjI)
    fix t assume t: "(t, Rise) \<in> set evs"
    from that have "reaches_loop w1 lat lon tle sat eph evs" by (simp add: reaches_loop_def)
    from observe[OF this t]
    show "is_visible w1 sat eph (lat, lon) thr t = is_visible w2 sat eph (lat, lon) thr t"
      by (auto simp: is_visible_def split: sum.splits)
  qed simp
  have "pass_body w1 lat lon tle thr = pass_body w2 lat lon tle thr"
  proof (cases "length tle < 2")
    case True
    then show ?thesis by (simp add: body)
  next
    case False
    then have len: "2 \<le> length tle" by simp
    show ?thesis
    proof (cases "EarthSatellite w1 (tle ! 0) (tle ! 1)")
      case (Inl e)
      with parse have "EarthSatellite w2 (tle ! 0) (tle ! 1) = Inl e" by simp
      with Inl False show ?thesis by (simp only: body sum.case if_False)
    next
      case sat: (Inr sat)
      with parse have sat2: "EarthSatellite w2 (tle ! 0) (tle ! 1) = Inr sat" by simp
      show ?thesis
      proof (cases "load_de421 w1")
        case (Inl e)
        with ephem have "load_de421 w2 = Inl e" by simp
        with Inl sat sat2 False show ?thesis by (simp only: body sum.case if_False)
      next
        case eph: (Inr eph)
        with ephem have eph2: "load_de421 w2 = Inr eph" by simp
        from search[OF sat] clock
        have ev2: "find_events w2 sat (lat, lon) (now w2)
            (real_of_int (utc_datetime (now w2) + 48 * 3600 * 1000000) / 1000000) 10 =
          find_events w1 sat (lat, lon) (now w1) ?T 10"
          by simp
        show ?thesis
        proof (cases "find_events w1 sat (lat, lon) (now w1) ?T 10")
          case (Inl e)
          with ev2 sat sat2 eph eph2 False show ?thesis
            by (simp only: body sum.case if_False)
        next
          case evs: (Inr evs)
          with ev2 sat sat2 eph eph2 False loops[OF len sat eph evs] show ?thesis
            by (simp only: body sum.case if_False)
        qed
      qed
    qed
  qed
  then show ?thesis by (simp add: next_visible_pass_def)
qed

theorem next_visible_pass_deterministic_witness:
  "next_visible_pass demo_world 51.5 0 demo_tle (- 18) =
     next_visible_pass demo_other_world 51.5 0 demo_tle (- 18) \<and>
   next_visible_pass demo_other_world 51.5 0 demo_tle (- 18) =
     Value (Some 40000000000, Some 390.5) \<and>
   is_sunlit demo_world () () 40200 \<noteq> is_sunlit demo_other_world () () 40200 \<and>
   sun_altitude demo_world () (51.5, 0) 40200 \<noteq> sun_altitude demo_other_world () (51.5, 0) 40200 \<and>
   find_events demo_world () (0, 0) 0 172800 10 \<noteq>
     find_events demo_other_world () (0, 0) 0 172800 10 \<and>
   ipinfo demo_world \<noteq> ipinfo demo_other_world \<and>
   next_visible_pass demo_late_world 51.5 0 demo_tle (- 18) = Value (Some 200000000000, None)"
proof -
  have search: "find_events demo_world sat (51.5, 0) (now demo_world)
        (real_of_int (utc_datetime (now demo_world) + 48 * 3600 * 1000000) / 1000000) 10 =
      find_events demo_other_world sat (51.5, 0) (now demo_world)
        (real_of_int (utc_datetime (now demo_world) + 48 * 3600 * 1000000) / 1000000) 10"
    for sat
    by (simp add: demo_other_world_def demo_world_def)
  have observe: "is_sunlit demo_world sat eph t = is_sunlit demo_other_world sat eph t \<and>
      (is_sunlit demo_world sat eph t = Inr True \<longrightarrow>
         sun_altitude demo_world eph (51.5, 0) t = sun_altitude demo_other_world eph (51.5, 0) t)"
    if "reaches_loop demo_world 51.5 0 demo_tle sat eph evs" "(t, Rise) \<in> set evs"
    for sat eph evs t
  proof -
    from that(1) have "evs = demo_window"
      using demo_reaches[of "51.5" 0] by (simp add: reaches_loop_def)
    with that(2) have "t = 5400 \<or> t = 40000 \<or> t = 46000"
      by (simp add: demo_window_def demo_events_def)
    then show ?thesis
      by (auto simp: demo_other_world_def demo_world_def demo_events_def)
  qed
  have same: "next_visible_pass demo_world 51.5 0 demo_tle (- 18) =
      next_visible_pass demo_other_world 51.5 0 demo_tle (- 18)"
  proof (rule next_visible_pass_deterministic)
    show "now demo_world = now demo_other_world"
      by (simp add: demo_other_world_def)
    show "EarthSatellite demo_world (demo_tle ! 0) (demo_tle ! 1) =
        EarthSatellite demo_other_world (demo_tle ! 0) (demo_tle ! 1)"
      by (simp add: demo_other_world_def)
    show "load_de421 demo_world = load_de421 demo_other_world"
      by (simp add: demo_other_world_def)
  next
    fix sat
    show "find_events demo_world sat (51.5, 0) (now demo_world)
        (real_of_int (utc_datetime (now demo_world) + 48 * 3600 * 1000000) / 1000000) 10 =
      find_events demo_other_world sat (51.5, 0) (now demo_world)
        (real_of_int (utc_datetime (now demo_world) + 48 * 3600 * 1000000) / 1000000) 10"
      by (rule search)
  next
    fix sat eph evs t
    assume "reaches_loop demo_world 51.5 0 demo_tle sat eph evs" "(t, Rise) \<in> set evs"
    then show "is_sunlit demo_world sat eph t = is_sunlit demo_other_world sat eph t \<and>
      (is_sunlit demo_world sat eph t = Inr True \<longrightarrow>
         sun_altitude demo_world eph (51.5, 0) t = sun_altitude demo_other_world eph (51.5, 0) t)"
      by (rule observe)
  qed
  have differ: "is_sunlit demo_world () () 40200 \<noteq> is_sunlit demo_other_world () () 40200 \<and>
      sun_altitude demo_world () (51.5, 0) 40200 \<noteq>
        sun_altitude demo_other_world () (51.5, 0) 40200 \<and>
      find_events demo_world () (0, 0) 0 172800 10 \<noteq>
        find_events demo_other_world () (0, 0) 0 172800 10 \<and>
      ipinfo demo_world \<noteq> ipinfo demo_other_world"
    by (simp add: demo_other_world_def demo_world_def demo_events_def)
  have late: "next_visible_pass demo_late_world 51.5 0 demo_tle (- 18) =
      Value (Some 200000000000, None)"
    by (simp add: next_visible_pass_reached[OF demo_late_reaches] demo_late_visible
          demo_late_window_def demo_events_def utc_datetime_def)
  from same demo_run_dark[of "51.5" 0] differ late show ?thesis by simp
qed

end
